theory Spec2Isabelle
  imports Main
begin

section \<open>Runtime values and errors\<close>

text \<open>
  The payloads that the \<^verbatim>\<open>.value\<close> attribute of a Scheme value can hold at run time.
  Python is dynamically typed: \<^verbatim>\<open>Number(...)\<close> stores whatever object it is given, and
  the unchecked paths of \<^verbatim>\<open>_builtins.py\<close> hand it the result of an operator applied to a
  \<^verbatim>\<open>bool\<close> or a \<^verbatim>\<open>str\<close>. Characters are code points below 256.
\<close>

datatype pyval = PyInt int | PyBool bool | PyStr string

text \<open>
  Modelled from the spec: the value classes of \<^verbatim>\<open>expressions.py\<close> (imported by
  \<^verbatim>\<open>_builtins.py\<close>, not part of the sources at hand). The spec lists the variants
  \<^verbatim>\<open>Number(value)\<close>, \<^verbatim>\<open>Boolean(value)\<close>, \<^verbatim>\<open>String(value)\<close>, \<^verbatim>\<open>Symbol(name)\<close>,
  \<^verbatim>\<open>Pair(first, second)\<close> and \<^verbatim>\<open>Nil\<close>, compared structurally. A \<^verbatim>\<open>Number\<close> of the
  spec is \<open>Number (PyInt n)\<close>. \<open>PyNone\<close> is Python's \<^verbatim>\<open>None\<close>, the object that
  \<^verbatim>\<open>builtin_car\<close> and \<^verbatim>\<open>builtin_cdr\<close> test a pair's first slot against; it is an
  object of the host language, not one of the variants.
\<close>

datatype "value" =
    PyNone
  | Number pyval
  | Boolean bool
  | String string
  | Symbol string
  | PairV "value" "value"
  | NilV

text \<open>The built-in exceptions of Python that the code can let escape.\<close>

datatype pyexc = AttributeError | TypeError | ValueError | ZeroDivisionError | StopIteration

text \<open>
  \<^verbatim>\<open>class ProcedureError(Exception)\<close> carries its message; every other exception is one
  of Python's own.
\<close>

datatype error = ProcedureError string | PyError pyexc

type_synonym 'a result = "error + 'a"

text \<open>\<^verbatim>\<open>isinstance(obj, Number)\<close> and \<^verbatim>\<open>isinstance(obj, Pair)\<close>.\<close>

fun is_Number :: "value \<Rightarrow> bool" where
  "is_Number (Number _) = True"
| "is_Number _ = False"

fun is_Pair :: "value \<Rightarrow> bool" where
  "is_Pair (PairV _ _) = True"
| "is_Pair _ = False"

text \<open>
  Reading \<^verbatim>\<open>obj.value\<close>: the variants with a \<^verbatim>\<open>value\<close> field return it, every other
  object raises \<^verbatim>\<open>AttributeError\<close>.
\<close>

fun attr_value :: "value \<Rightarrow> pyval result" where
  "attr_value (Number v) = Inr v"
| "attr_value (Boolean b) = Inr (PyBool b)"
| "attr_value (String s) = Inr (PyStr s)"
| "attr_value _ = Inl (PyError AttributeError)"

section \<open>Python operators on payloads\<close>

text \<open>A \<^verbatim>\<open>bool\<close> is an \<^verbatim>\<open>int\<close> in Python: \<^verbatim>\<open>True\<close> is 1 and \<^verbatim>\<open>False\<close> is 0.\<close>

fun as_int :: "pyval \<Rightarrow> int option" where
  "as_int (PyInt n) = Some n"
| "as_int (PyBool b) = Some (if b then 1 else 0)"
| "as_int (PyStr _) = None"

text \<open>Python compares strings by code point, lexicographically.\<close>

fun str_lt :: "string \<Rightarrow> string \<Rightarrow> bool" where
  "str_lt [] [] = False"
| "str_lt [] (d # t) = True"
| "str_lt (c # s) [] = False"
| "str_lt (c # s) (d # t) =
     ((of_char c :: nat) < of_char d \<or> (c = d \<and> str_lt s t))"

text \<open>
  \<^verbatim>\<open>operator.add\<close>, \<^verbatim>\<open>operator.sub\<close>, \<^verbatim>\<open>operator.mul\<close>: arithmetic on
  integers, concatenation of two strings, repetition of a string (no copy for a
  count below 1).
\<close>

fun op_add :: "pyval \<Rightarrow> pyval \<Rightarrow> pyexc + pyval" where
  "op_add (PyStr s) (PyStr t) = Inr (PyStr (s @ t))"
| "op_add x y =
     (case (as_int x, as_int y) of
        (Some a, Some b) \<Rightarrow> Inr (PyInt (a + b))
      | _ \<Rightarrow> Inl TypeError)"

fun op_sub :: "pyval \<Rightarrow> pyval \<Rightarrow> pyexc + pyval" where
  "op_sub x y =
     (case (as_int x, as_int y) of
        (Some a, Some b) \<Rightarrow> Inr (PyInt (a - b))
      | _ \<Rightarrow> Inl TypeError)"

fun repeat_str :: "string \<Rightarrow> int \<Rightarrow> string" where
  "repeat_str s n = concat (replicate (nat n) s)"

fun op_mul :: "pyval \<Rightarrow> pyval \<Rightarrow> pyexc + pyval" where
  "op_mul (PyStr s) (PyStr t) = Inl TypeError"
| "op_mul (PyStr s) y = (case as_int y of Some n \<Rightarrow> Inr (PyStr (repeat_str s n)) | None \<Rightarrow> Inl TypeError)"
| "op_mul x (PyStr t) = (case as_int x of Some n \<Rightarrow> Inr (PyStr (repeat_str t n)) | None \<Rightarrow> Inl TypeError)"
| "op_mul x y =
     (case (as_int x, as_int y) of
        (Some a, Some b) \<Rightarrow> Inr (PyInt (a * b))
      | _ \<Rightarrow> Inl TypeError)"

text \<open>The unary functions handed to \<^verbatim>\<open>arith_op\<close>: \<^verbatim>\<open>lambda x: +x\<close>,
  \<^verbatim>\<open>lambda x: -x\<close> and \<^verbatim>\<open>lambda x: x\<close>.\<close>

fun unary_plus :: "pyval \<Rightarrow> pyexc + pyval" where
  "unary_plus x = (case as_int x of Some a \<Rightarrow> Inr (PyInt a) | None \<Rightarrow> Inl TypeError)"

fun unary_minus :: "pyval \<Rightarrow> pyexc + pyval" where
  "unary_minus x = (case as_int x of Some a \<Rightarrow> Inr (PyInt (- a)) | None \<Rightarrow> Inl TypeError)"

fun unary_id :: "pyval \<Rightarrow> pyexc + pyval" where
  "unary_id x = Inr x"

text \<open>
  \<^verbatim>\<open>operator.eq\<close> never raises: objects of unrelated types are unequal. The ordering
  operators raise \<^verbatim>\<open>TypeError\<close> between a string and a number.
\<close>

fun op_eq :: "pyval \<Rightarrow> pyval \<Rightarrow> pyexc + bool" where
  "op_eq (PyStr s) (PyStr t) = Inr (s = t)"
| "op_eq x y =
     (case (as_int x, as_int y) of
        (Some a, Some b) \<Rightarrow> Inr (a = b)
      | _ \<Rightarrow> Inr False)"

fun op_lt :: "pyval \<Rightarrow> pyval \<Rightarrow> pyexc + bool" where
  "op_lt (PyStr s) (PyStr t) = Inr (str_lt s t)"
| "op_lt x y =
     (case (as_int x, as_int y) of
        (Some a, Some b) \<Rightarrow> Inr (a < b)
      | _ \<Rightarrow> Inl TypeError)"

fun op_gt :: "pyval \<Rightarrow> pyval \<Rightarrow> pyexc + bool" where
  "op_gt (PyStr s) (PyStr t) = Inr (str_lt t s)"
| "op_gt x y =
     (case (as_int x, as_int y) of
        (Some a, Some b) \<Rightarrow> Inr (a > b)
      | _ \<Rightarrow> Inl TypeError)"

fun op_le :: "pyval \<Rightarrow> pyval \<Rightarrow> pyexc + bool" where
  "op_le (PyStr s) (PyStr t) = Inr (\<not> str_lt t s)"
| "op_le x y =
     (case (as_int x, as_int y) of
        (Some a, Some b) \<Rightarrow> Inr (a \<le> b)
      | _ \<Rightarrow> Inl TypeError)"

fun op_ge :: "pyval \<Rightarrow> pyval \<Rightarrow> pyexc + bool" where
  "op_ge (PyStr s) (PyStr t) = Inr (\<not> str_lt s t)"
| "op_ge x y =
     (case (as_int x, as_int y) of
        (Some a, Some b) \<Rightarrow> Inr (a \<ge> b)
      | _ \<Rightarrow> Inl TypeError)"

text \<open>
  Floor division \<^verbatim>\<open>//\<close> and modulus \<^verbatim>\<open>%\<close>. On integers they are \<open>div\<close> and
  \<open>mod\<close> of HOL (rounding towards minus infinity, the remainder taking the sign of the
  divisor), except that a zero divisor raises. A string operand of \<^verbatim>\<open>//\<close> is a
  \<^verbatim>\<open>TypeError\<close>. With a string on the left, \<^verbatim>\<open>%\<close> is printf-style formatting, which
  returns a string or raises; it is the parameter \<open>fmt\<close>.
\<close>

fun floordiv :: "pyval \<Rightarrow> pyval \<Rightarrow> pyexc + pyval" where
  "floordiv x y =
     (case (as_int x, as_int y) of
        (Some a, Some b) \<Rightarrow> if b = 0 then Inl ZeroDivisionError else Inr (PyInt (a div b))
      | _ \<Rightarrow> Inl TypeError)"

fun modulus :: "(string \<Rightarrow> pyval \<Rightarrow> pyexc + string) \<Rightarrow> pyval \<Rightarrow> pyval \<Rightarrow> pyexc + pyval" where
  "modulus fmt (PyStr s) y = map_sum id PyStr (fmt s y)"
| "modulus fmt x y =
     (case (as_int x, as_int y) of
        (Some a, Some b) \<Rightarrow> if b = 0 then Inl ZeroDivisionError else Inr (PyInt (a mod b))
      | _ \<Rightarrow> Inl TypeError)"

text \<open>An exception of an operator propagates out of the builtin unchanged.\<close>

fun raised :: "pyexc + 'a \<Rightarrow> 'a result" where
  "raised (Inl e) = Inl (PyError e)"
| "raised (Inr v) = Inr v"

section \<open>The builtins\<close>

text \<open>
  \<^verbatim>\<open>check_type(expected_type, objs, msg)\<close>: \<open>objs\<close> is either the tuple of arguments or
  one object, which the function wraps in a list.
\<close>

datatype objs = Args "value list" | Obj "value"

fun check_type :: "(value \<Rightarrow> bool) \<Rightarrow> objs \<Rightarrow> string \<Rightarrow> unit result" where
  "check_type expected_type objs msg =
     (let objs = (case objs of Args t \<Rightarrow> t | Obj obj \<Rightarrow> [obj])
      in if list_ex (\<lambda>obj. \<not> expected_type obj) objs
         then Inl (ProcedureError msg) else Inr ())"

text \<open>
  \<^verbatim>\<open>[el.value for el in args]\<close> reads the payloads left to right and stops at the first
  read that raises.
\<close>

fun values_of :: "value list \<Rightarrow> pyval list result" where
  "values_of [] = Inr []"
| "values_of (el # args) =
     (case attr_value el of
        Inl e \<Rightarrow> Inl e
      | Inr v \<Rightarrow> (case values_of args of Inl e \<Rightarrow> Inl e | Inr vs \<Rightarrow> Inr (v # vs)))"

text \<open>
  \<^verbatim>\<open>functools.reduce\<close> without an initial value: a left fold from the first element,
  and a \<^verbatim>\<open>TypeError\<close> on the empty sequence.
\<close>

fun reduce_from :: "(pyval \<Rightarrow> pyval \<Rightarrow> pyexc + pyval) \<Rightarrow> pyval \<Rightarrow> pyval list \<Rightarrow> pyexc + pyval" where
  "reduce_from op_func acc [] = Inr acc"
| "reduce_from op_func acc (x # xs) =
     (case op_func acc x of Inl e \<Rightarrow> Inl e | Inr acc' \<Rightarrow> reduce_from op_func acc' xs)"

fun reduce :: "(pyval \<Rightarrow> pyval \<Rightarrow> pyexc + pyval) \<Rightarrow> pyval list \<Rightarrow> pyexc + pyval" where
  "reduce op_func [] = Inl TypeError"
| "reduce op_func (x # xs) = reduce_from op_func x xs"

fun arith_op ::
  "(pyval \<Rightarrow> pyval \<Rightarrow> pyexc + pyval) \<Rightarrow> (pyval \<Rightarrow> pyexc + pyval) \<Rightarrow> value list \<Rightarrow> value result"
where
  "arith_op op_func unary_func args =
     (if length args = 1 then
        (case attr_value (args ! 0) of
           Inl e \<Rightarrow> Inl e
         | Inr v \<Rightarrow> map_sum id Number (raised (unary_func v)))
      else
        (case check_type is_Number (Args args) ''Expected numbers only'' of
           Inl e \<Rightarrow> Inl e
         | Inr _ \<Rightarrow>
             (case values_of args of
                Inl e \<Rightarrow> Inl e
              | Inr vs \<Rightarrow> map_sum id Number (raised (reduce op_func vs)))))"

text \<open>
  The loop of \<^verbatim>\<open>comp_op\<close>: \<open>val\<close> is the element compared last; \<^verbatim>\<open>value.value\<close> is
  read before \<^verbatim>\<open>element.value\<close>, and the operator is applied to the two payloads.
\<close>

fun comp_loop :: "(pyval \<Rightarrow> pyval \<Rightarrow> pyexc + bool) \<Rightarrow> value \<Rightarrow> value list \<Rightarrow> value result" where
  "comp_loop op_func val [] = Inr (Boolean True)"
| "comp_loop op_func val (element # it) =
     (case attr_value val of
        Inl e \<Rightarrow> Inl e
      | Inr a \<Rightarrow>
          (case attr_value element of
             Inl e \<Rightarrow> Inl e
           | Inr b \<Rightarrow>
               (case raised (op_func a b) of
                  Inl e \<Rightarrow> Inl e
                | Inr holds \<Rightarrow>
                    if holds then comp_loop op_func element it
                    else Inr (Boolean False))))"

text \<open>\<^verbatim>\<open>next(it)\<close> on the iterator of an empty tuple raises \<^verbatim>\<open>StopIteration\<close>.\<close>

fun comp_op :: "(pyval \<Rightarrow> pyval \<Rightarrow> pyexc + bool) \<Rightarrow> value list \<Rightarrow> value result" where
  "comp_op op_func [] = Inl (PyError StopIteration)"
| "comp_op op_func (val # it) = comp_loop op_func val it"

fun builtin_car :: "value \<Rightarrow> value result" where
  "builtin_car pair =
     (case check_type is_Pair (Obj pair) ''Expected pair or list.'' of
        Inl e \<Rightarrow> Inl e
      | Inr _ \<Rightarrow>
          (case pair of
             PairV first second \<Rightarrow>
               if first = PyNone then Inl (ProcedureError ''attempted car on empty list'')
               else Inr first
           | _ \<Rightarrow> Inl (PyError AttributeError)))"

fun builtin_cdr :: "value \<Rightarrow> value result" where
  "builtin_cdr pair =
     (case check_type is_Pair (Obj pair) ''Expected pair or list.'' of
        Inl e \<Rightarrow> Inl e
      | Inr _ \<Rightarrow>
          (case pair of
             PairV first second \<Rightarrow>
               if first = PyNone then Inl (ProcedureError ''attempted cdr on empty list'')
               else Inr second
           | _ \<Rightarrow> Inl (PyError AttributeError)))"

text \<open>
  \<^verbatim>\<open>builtin_and\<close> and \<^verbatim>\<open>builtin_or\<close>: the \<^verbatim>\<open>for\<close> loop returns the first element
  equal to the constant; after the loop the last argument is returned, or the default
  on an empty tuple. \<^verbatim>\<open>==\<close> is the structural equality of the variants.
\<close>

fun first_equal :: "value \<Rightarrow> value list \<Rightarrow> value option" where
  "first_equal c [] = None"
| "first_equal c (el # args) = (if el = c then Some el else first_equal c args)"

fun builtin_and :: "value list \<Rightarrow> value" where
  "builtin_and args =
     (case first_equal (Boolean False) args of
        Some el \<Rightarrow> el
      | None \<Rightarrow> if length args > 0 then last args else Boolean True)"

fun builtin_or :: "value list \<Rightarrow> value" where
  "builtin_or args =
     (case first_equal (Boolean True) args of
        Some el \<Rightarrow> el
      | None \<Rightarrow> if length args > 0 then last args else Boolean False)"

fun builtin_quotient :: "value \<Rightarrow> value \<Rightarrow> value result" where
  "builtin_quotient a b =
     (case attr_value a of
        Inl e \<Rightarrow> Inl e
      | Inr x \<Rightarrow>
          (case attr_value b of
             Inl e \<Rightarrow> Inl e
           | Inr y \<Rightarrow> map_sum id Number (raised (floordiv x y))))"

fun builtin_mod :: "(string \<Rightarrow> pyval \<Rightarrow> pyexc + string) \<Rightarrow> value \<Rightarrow> value \<Rightarrow> value result" where
  "builtin_mod fmt a b =
     (case attr_value a of
        Inl e \<Rightarrow> Inl e
      | Inr x \<Rightarrow>
          (case attr_value b of
             Inl e \<Rightarrow> Inl e
           | Inr y \<Rightarrow> map_sum id Number (raised (modulus fmt x y))))"

section \<open>Procedures\<close>

text \<open>
  A Python function object: the shape of its declared parameters (\<^verbatim>\<open>def f(a, b)\<close>
  declares two, \<^verbatim>\<open>def op(*args)\<close> accepts any number) and its code, which receives
  the tuple of arguments.
\<close>

datatype params = Fixed nat | Positional

record callable =
  params :: params
  body :: "value list \<Rightarrow> value result"

text \<open>
  Modelled from the spec: \<^verbatim>\<open>get_number_of_params\<close> of \<^verbatim>\<open>utils.py\<close> (imported by
  \<^verbatim>\<open>_builtins.py\<close>, not part of the sources at hand). The spec derives the arity from
  the declared parameter shape: a fixed count, or a variadic marker for a procedure
  that accepts any number of arguments; \<^verbatim>\<open>Procedure.apply\<close> compares the result with
  the marker \<^verbatim>\<open>'positional'\<close> and with \<^verbatim>\<open>len(args)\<close>.
\<close>

definition get_number_of_params :: "callable \<Rightarrow> params" where
  "get_number_of_params f = params f"

text \<open>
  The call \<^verbatim>\<open>f(*args)\<close>: Python itself raises \<^verbatim>\<open>TypeError\<close> when the number of
  arguments does not fit the declared parameters.
\<close>

definition call :: "callable \<Rightarrow> value list \<Rightarrow> value result" where
  "call f args =
     (case params f of
        Fixed n \<Rightarrow> if length args = n then body f args else Inl (PyError TypeError)
      | Positional \<Rightarrow> body f args)"

text \<open>\<^verbatim>\<open>str.format\<close> prints a count in decimal.\<close>

fun digit :: "nat \<Rightarrow> char" where
  "digit n = ''0123456789'' ! n"

fun str_of_nat :: "nat \<Rightarrow> string" where
  "str_of_nat n = (if n < 10 then [digit n] else str_of_nat (n div 10) @ [digit (n mod 10)])"

record procedure =
  name :: string
  builtin_proc :: callable

text \<open>How \<^verbatim>\<open>str.format\<close> prints the value of \<^verbatim>\<open>argc\<close>.\<close>

fun format_argc :: "params \<Rightarrow> string" where
  "format_argc (Fixed n) = str_of_nat n"
| "format_argc Positional = ''positional''"

text \<open>\<^verbatim>\<open>Procedure.apply(self, *args)\<close>.\<close>

definition procedure_apply :: "procedure \<Rightarrow> value list \<Rightarrow> value result" where
  "procedure_apply self args =
     (let argc = get_number_of_params (builtin_proc self)
      in if argc \<noteq> Positional \<and> argc \<noteq> Fixed (length args)
         then Inl (ProcedureError
                (''Procedure '' @ [CHR 0x22] @ name self @ [CHR 0x22] @ '' expected ''
                   @ format_argc argc @ '' argument(s). Got '' @ str_of_nat (length args)
                   @ '' instead''))
         else call (builtin_proc self) args)"

text \<open>
  The function objects of the builtins: \<^verbatim>\<open>def builtin_quotient(a, b)\<close> declares two
  parameters, the closures of \<^verbatim>\<open>arith_op\<close> and \<^verbatim>\<open>comp_op\<close> are
  \<^verbatim>\<open>def op(*args)\<close>.
\<close>

definition def2 :: "(value \<Rightarrow> value \<Rightarrow> value result) \<Rightarrow> callable" where
  "def2 f =
     \<lparr>params = Fixed 2,
      body = (\<lambda>args. case args of [a, b] \<Rightarrow> f a b | _ \<Rightarrow> Inl (PyError TypeError))\<rparr>"

definition def_star :: "(value list \<Rightarrow> value result) \<Rightarrow> callable" where
  "def_star f = \<lparr>params = Positional, body = f\<rparr>"

text \<open>
  The comparison entries of \<^verbatim>\<open>builtin_map\<close>: each name is bound to the closure
  \<^verbatim>\<open>comp_op(op_func)\<close>, a \<^verbatim>\<open>def op(*args)\<close>.
\<close>

definition comparison_builtins :: "(string \<times> callable) list" where
  "comparison_builtins =
     [(''='', def_star (comp_op op_eq)),
      (''>'', def_star (comp_op op_gt)),
      (''<'', def_star (comp_op op_lt)),
      (''>='', def_star (comp_op op_ge)),
      (''<='', def_star (comp_op op_le))]"

text \<open>The operator handed to \<^verbatim>\<open>comp_op\<close>, beside the relation on integers it stands for.\<close>

definition comparison_relations ::
  "((pyval \<Rightarrow> pyval \<Rightarrow> pyexc + bool) \<times> (int \<Rightarrow> int \<Rightarrow> bool)) list" where
  "comparison_relations =
     [(op_eq, (=)), (op_gt, (>)), (op_lt, (<)), (op_ge, (\<ge>)), (op_le, (\<le>))]"

section \<open>The lexer\<close>

definition ADDITIONAL_BUILTIN_CHARS :: "char set" where
  "ADDITIONAL_BUILTIN_CHARS = {CHR ''?'', CHR ''!'', CHR ''.''}"

text \<open>Space, newline, tab and carriage return.\<close>

definition GARBAGE_CHARS :: "char set" where
  "GARBAGE_CHARS = {CHR '' '', CHR 0x0A, CHR 0x09, CHR 0x0D}"

definition TRUE_OR_FALSE_CHARS :: "char set" where
  "TRUE_OR_FALSE_CHARS = {CHR ''t'', CHR ''f''}"

definition COMMENT_CHAR :: char where
  "COMMENT_CHAR = CHR '';''"

text \<open>The keys of \<^verbatim>\<open>builtin_map\<close>.\<close>

definition builtin_map_keys :: "string list" where
  "builtin_map_keys =
     [''eq?'', ''eqv?'', ''pair?'', ''zero?'', ''boolean?'', ''symbol?'', ''number?'',
      ''null?'', ''string?'', ''+'', ''-'', ''*'', ''quotient'', ''modulo'', ''='', ''>'',
      ''<'', ''>='', ''<='', ''and'', ''or'', ''not'', ''list'', ''cons'', ''car'', ''cdr'',
      ''cadr'', ''caddr'', ''set-car!'', ''set-cdr!'', ''string-length'']"

text \<open>
  \<^verbatim>\<open>str.isdigit\<close> and \<^verbatim>\<open>str.isalnum\<close> on one character. A character is its code
  point, below 256: beside the ASCII digits and letters, Unicode counts the superscript
  digits (178, 179, 185) as digits, and as alphanumeric also the ordinal indicators
  (170, 186), the micro sign (181), the three vulgar fractions (188 to 190) and the
  accented letters from 192 on, the signs 215 and 247 apart.
\<close>

definition isdigit :: "char \<Rightarrow> bool" where
  "isdigit c =
     (let n = (of_char c :: nat) in (48 \<le> n \<and> n \<le> 57) \<or> n \<in> {178, 179, 185})"

definition isalnum :: "char \<Rightarrow> bool" where
  "isalnum c =
     (let n = (of_char c :: nat)
      in (48 \<le> n \<and> n \<le> 57) \<or> (65 \<le> n \<and> n \<le> 90) \<or> (97 \<le> n \<and> n \<le> 122)
         \<or> n \<in> {170, 178, 179, 181, 185, 186, 188, 189, 190}
         \<or> (192 \<le> n \<and> n \<le> 214) \<or> (216 \<le> n \<and> n \<le> 246) \<or> 248 \<le> n)"

text \<open>
  \<^verbatim>\<open>char in builtin_map.keys()\<close> asks whether the one-character string is itself a key
  of the table.
\<close>

definition is_identifier :: "char \<Rightarrow> bool" where
  "is_identifier char =
     (isalnum char \<or> [char] \<in> set builtin_map_keys \<or> char \<in> ADDITIONAL_BUILTIN_CHARS)"

datatype token_type = BOOLEAN | STRING | NUMBER | IDENTIFIER | LPAREN | RPAREN | QUOTE

datatype token = Token (token_type: token_type) (val: string) (token_pos: nat)

text \<open>
  What \<^verbatim>\<open>next_token\<close> returns: \<^verbatim>\<open>None\<close> at the end of the buffer, a \<^verbatim>\<open>Token\<close>, or the
  named tuple \<^verbatim>\<open>Error(pos)\<close>.
\<close>

datatype lex_result = NoToken | Tok token | Error nat

record lexer =
  buffer :: string
  pos :: nat

definition Lexer :: "string \<Rightarrow> lexer" where
  "Lexer buf = \<lparr>buffer = buf, pos = 0\<rparr>"

text \<open>
  \<^verbatim>\<open>_get_char(self, pos=None)\<close>: \<^verbatim>\<open>offset = pos or self.pos\<close> takes the cursor also
  when the argument is 0; an index past the end is caught and gives \<^verbatim>\<open>None\<close>.
\<close>

definition get_char :: "lexer \<Rightarrow> nat option \<Rightarrow> char option" where
  "get_char self pos_arg =
     (let offset = (case pos_arg of None \<Rightarrow> pos self
                    | Some p \<Rightarrow> if p = 0 then pos self else p)
      in if offset < length (buffer self) then Some (buffer self ! offset) else None)"

text \<open>The slice \<^verbatim>\<open>s[i:j]\<close> for indices that are not negative.\<close>

definition slice :: "string \<Rightarrow> nat \<Rightarrow> nat \<Rightarrow> string" where
  "slice s i j = take (j - i) (drop i s)"

function skip_whitespace :: "lexer \<Rightarrow> lexer" where
  "skip_whitespace self =
     (case get_char self None of
        None \<Rightarrow> self
      | Some c \<Rightarrow>
          if c \<in> GARBAGE_CHARS then skip_whitespace (self\<lparr>pos := pos self + 1\<rparr>)
          else self)"
  by pat_completeness auto
termination
  by (relation "measure (\<lambda>self. length (buffer self) - pos self)")
     (auto simp: get_char_def Let_def split: if_splits)

text \<open>The inner loop of \<^verbatim>\<open>_skip_comments\<close>, up to the newline or the end.\<close>

function skip_to_newline :: "lexer \<Rightarrow> lexer" where
  "skip_to_newline self =
     (case get_char self None of
        None \<Rightarrow> self
      | Some c \<Rightarrow>
          if c \<noteq> CHR 0x0A then skip_to_newline (self\<lparr>pos := pos self + 1\<rparr>)
          else self)"
  by pat_completeness auto
termination
  by (relation "measure (\<lambda>self. length (buffer self) - pos self)")
     (auto simp: get_char_def Let_def split: if_splits)

definition skip_comments :: "lexer \<Rightarrow> lexer" where
  "skip_comments self =
     (if get_char self None = Some COMMENT_CHAR then skip_to_newline self else self)"

declare skip_whitespace.simps [simp del] skip_to_newline.simps [simp del]

text \<open>
  Both skipping loops keep the buffer, never move the cursor back, and move it when
  the character under it is one they skip.
\<close>

lemma get_char_cursor:
  "get_char self None =
     (if pos self < length (buffer self) then Some (buffer self ! pos self) else None)"
  by (simp add: get_char_def)

lemma get_char_at:
  "0 < e \<Longrightarrow> get_char self (Some e) =
     (if e < length (buffer self) then Some (buffer self ! e) else None)"
  by (simp add: get_char_def)

lemma skip_whitespace_moves:
  "buffer (skip_whitespace L) = buffer L \<and> pos L \<le> pos (skip_whitespace L)
   \<and> (\<forall>c. get_char L None = Some c \<and> c \<in> GARBAGE_CHARS \<longrightarrow> pos L < pos (skip_whitespace L))"
proof (induction L rule: skip_whitespace.induct)
  case (1 L)
  show ?case
  proof (cases "get_char L None")
    case None
    then show ?thesis using skip_whitespace.simps [of L] by simp
  next
    case (Some c)
    show ?thesis
    proof (cases "c \<in> GARBAGE_CHARS")
      case True
      from "1.IH" [OF Some True] show ?thesis
        using Some True skip_whitespace.simps [of L] by auto
    next
      case False
      with Some show ?thesis using skip_whitespace.simps [of L] by simp
    qed
  qed
qed

lemma skip_to_newline_moves:
  "buffer (skip_to_newline L) = buffer L \<and> pos L \<le> pos (skip_to_newline L)
   \<and> (\<forall>c. get_char L None = Some c \<and> c \<noteq> CHR 0x0A \<longrightarrow> pos L < pos (skip_to_newline L))"
proof (induction L rule: skip_to_newline.induct)
  case (1 L)
  show ?case
  proof (cases "get_char L None")
    case None
    then show ?thesis using skip_to_newline.simps [of L] by simp
  next
    case (Some c)
    show ?thesis
    proof (cases "c \<noteq> CHR 0x0A")
      case True
      from "1.IH" [OF Some True] show ?thesis
        using Some True skip_to_newline.simps [of L] by auto
    next
      case False
      with Some show ?thesis using skip_to_newline.simps [of L] by simp
    qed
  qed
qed

lemma skip_comments_moves:
  "buffer (skip_comments L) = buffer L \<and> pos L \<le> pos (skip_comments L)
   \<and> (get_char L None = Some COMMENT_CHAR \<longrightarrow> pos L < pos (skip_comments L))"
  using skip_to_newline_moves [of L]
  by (auto simp: skip_comments_def COMMENT_CHAR_def)

text \<open>
  The loop at the head of \<^verbatim>\<open>next_token\<close>:
  \<^verbatim>\<open>while char in GARBAGE_CHARS or char == COMMENT_CHAR\<close>. Each round moves the cursor,
  so the loop ends.
\<close>

definition skippable :: "char option \<Rightarrow> bool" where
  "skippable char =
     (case char of None \<Rightarrow> False | Some c \<Rightarrow> c \<in> GARBAGE_CHARS \<or> c = COMMENT_CHAR)"

function skip_garbage :: "lexer \<Rightarrow> lexer" where
  "skip_garbage self =
     (if skippable (get_char self None)
      then skip_garbage (skip_whitespace (skip_comments self))
      else self)"
  by pat_completeness auto
termination
proof (relation "measure (\<lambda>self. length (buffer self) - pos self)")
  show "wf (measure (\<lambda>self. length (buffer self) - pos self))" by simp
next
  fix self :: lexer
  assume "skippable (get_char self None)"
  then obtain c where c: "get_char self None = Some c"
    and cc: "c \<in> GARBAGE_CHARS \<or> c = COMMENT_CHAR"
    by (auto simp: skippable_def split: option.splits)
  have lt: "pos self < length (buffer self)"
    using c by (auto simp: get_char_cursor split: if_splits)
  have adv: "pos self < pos (skip_whitespace (skip_comments self))"
  proof (cases "c = COMMENT_CHAR")
    case True
    then show ?thesis
      using c skip_comments_moves [of self] skip_whitespace_moves [of "skip_comments self"]
      by auto
  next
    case False
    then have "skip_comments self = self"
      using c by (simp add: skip_comments_def)
    then show ?thesis
      using skip_whitespace_moves [of self] c cc False by auto
  qed
  have "buffer (skip_whitespace (skip_comments self)) = buffer self"
    using skip_whitespace_moves [of "skip_comments self"] skip_comments_moves [of self]
    by simp
  then show "(skip_whitespace (skip_comments self), self)
               \<in> measure (\<lambda>self. length (buffer self) - pos self)"
    using adv lt by simp
qed

text \<open>
  The loop shared by \<^verbatim>\<open>_process_number\<close> and \<^verbatim>\<open>_process_identifier\<close>:
  \<^verbatim>\<open>while self._get_char(endpos) and accept(self._get_char(endpos)): endpos += 1\<close>,
  with \<^verbatim>\<open>isdigit\<close> and \<^verbatim>\<open>is_identifier\<close> for \<open>accept\<close>. It returns the final
  \<open>endpos\<close>.
\<close>

function scan_while :: "(char \<Rightarrow> bool) \<Rightarrow> lexer \<Rightarrow> nat \<Rightarrow> nat" where
  "scan_while accept self endpos =
     (case get_char self (Some endpos) of
        None \<Rightarrow> endpos
      | Some c \<Rightarrow> if accept c then scan_while accept self (endpos + 1) else endpos)"
  by pat_completeness auto
termination
  by (relation "measure (\<lambda>(accept, self, endpos). length (buffer self) - endpos)")
     (auto simp: get_char_def Let_def split: if_splits)

text \<open>
  The loop of \<^verbatim>\<open>_process_string\<close>: \<open>None\<close> when it returns the error from inside
  the loop, the final \<open>endpos\<close> (the index of the closing quote) otherwise.
\<close>

function string_end :: "lexer \<Rightarrow> nat \<Rightarrow> nat option" where
  "string_end self endpos =
     (if get_char self (Some endpos) \<noteq> Some (CHR 0x22) then
        if get_char self (Some endpos) = None \<or> get_char self (Some endpos) = Some (CHR 0x0A)
        then None
        else string_end self (endpos + 1)
      else Some endpos)"
  by pat_completeness auto
termination
  by (relation "measure (\<lambda>(self, endpos). length (buffer self) - endpos)")
     (auto simp: get_char_def Let_def split: if_splits)

declare scan_while.simps [simp del] string_end.simps [simp del] skip_garbage.simps [simp del]

text \<open>Each \<^verbatim>\<open>_process_*\<close> method returns its token and the lexer with the cursor moved.\<close>

definition process_boolean :: "lexer \<Rightarrow> lex_result \<times> lexer" where
  "process_boolean self =
     (let retval = Token BOOLEAN (slice (buffer self) (pos self) (pos self + 2)) (pos self)
      in (Tok retval, self\<lparr>pos := pos self + 2\<rparr>))"

definition process_number :: "lexer \<Rightarrow> lex_result \<times> lexer" where
  "process_number self =
     (let endpos = scan_while isdigit self (pos self + 1);
          retval = Token NUMBER (slice (buffer self) (pos self) endpos) (pos self)
      in (Tok retval, self\<lparr>pos := endpos\<rparr>))"

definition process_string :: "lexer \<Rightarrow> lex_result \<times> lexer" where
  "process_string self =
     (case string_end self (pos self + 1) of
        None \<Rightarrow> (Error (pos self), self)
      | Some endpos \<Rightarrow>
          (let retval = Token STRING (slice (buffer self) (pos self + 1) endpos) (pos self)
           in (Tok retval, self\<lparr>pos := endpos + 1\<rparr>)))"

definition process_identifier :: "lexer \<Rightarrow> lex_result \<times> lexer" where
  "process_identifier self =
     (let endpos = scan_while is_identifier self (pos self + 1);
          retval = Token IDENTIFIER (slice (buffer self) (pos self) endpos) (pos self)
      in (Tok retval, self\<lparr>pos := endpos\<rparr>))"

definition process_lparen :: "lexer \<Rightarrow> lex_result \<times> lexer" where
  "process_lparen self =
     (let retval = Token LPAREN [buffer self ! pos self] (pos self)
      in (Tok retval, self\<lparr>pos := pos self + 1\<rparr>))"

definition process_rparen :: "lexer \<Rightarrow> lex_result \<times> lexer" where
  "process_rparen self =
     (let retval = Token RPAREN [buffer self ! pos self] (pos self)
      in (Tok retval, self\<lparr>pos := pos self + 1\<rparr>))"

definition process_quote :: "lexer \<Rightarrow> lex_result \<times> lexer" where
  "process_quote self =
     (let retval = Token QUOTE [buffer self ! pos self] (pos self)
      in (Tok retval, self\<lparr>pos := pos self + 1\<rparr>))"

text \<open>
  \<^verbatim>\<open>next_token\<close>: the result and the lexer after the call. The single-character
  methods index the buffer at the cursor, where a character has just been read.
\<close>

definition next_token :: "lexer \<Rightarrow> lex_result \<times> lexer" where
  "next_token self0 =
     (let self = skip_garbage self0
      in case get_char self None of
           None \<Rightarrow> (NoToken, self)
         | Some char \<Rightarrow>
             if char = CHR ''#''
                \<and> (case get_char self (Some (pos self + 1)) of
                       None \<Rightarrow> False | Some c \<Rightarrow> c \<in> TRUE_OR_FALSE_CHARS)
             then process_boolean self
             else if isdigit char then process_number self
             else if char = CHR 0x22 then process_string self
             else if is_identifier char then process_identifier self
             else if char = CHR ''('' then process_lparen self
             else if char = CHR '')'' then process_rparen self
             else if char = CHR 0x27 then process_quote self
             else (Error (pos self), self))"

text \<open>
  The characters that \<^verbatim>\<open>_process_string\<close> steps over: every one but the double
  quote and the newline.
\<close>

definition inside_string :: "char \<Rightarrow> bool" where
  "inside_string c = (c \<noteq> CHR 0x22 \<and> c \<noteq> CHR 0x0A)"

text \<open>
  What a call that starts on a character which is not skipped leaves behind, used in
  the proofs below: the buffer is kept; a token starts at the old cursor, the cursor
  has moved past it, and the token's text is the slice between the two (inside the
  quotes for a string); an error leaves the lexer as it was.
\<close>

definition cursor_after :: "lexer \<Rightarrow> lex_result \<times> lexer \<Rightarrow> bool" where
  "cursor_after L x =
     (case x of (r, L') \<Rightarrow>
        buffer L' = buffer L
        \<and> (case r of
             NoToken \<Rightarrow> L' = L
           | Tok t \<Rightarrow>
               pos L < pos L' \<and> token_pos t = pos L \<and> pos L' \<le> length (buffer L)
               \<and> (if token_type t = STRING
                   then pos L' = token_pos t + length (val t) + 2
                        \<and> slice (buffer L) (token_pos t + 1) (pos L' - 1) = val t
                   else pos L' = token_pos t + length (val t)
                        \<and> slice (buffer L) (token_pos t) (pos L') = val t)
           | Error p \<Rightarrow> L' = L \<and> p = pos L \<and> p < length (buffer L)))"

section \<open>Properties of the builtins\<close>

subsection \<open>Helper facts\<close>

lemma first_equal_find: "first_equal c args = find (\<lambda>el. el = c) args"
  by (induction args) auto

lemma str_of_nat_small [simp]: "n < 10 \<Longrightarrow> str_of_nat n = [digit n]"
  by (subst str_of_nat.simps) simp

lemma def_star_positional: "get_number_of_params (def_star f) = Positional"
  by (simp add: get_number_of_params_def def_star_def)

lemma apply_def_star: "procedure_apply \<lparr>name = nm, builtin_proc = def_star f\<rparr> args = f args"
  by (simp add: procedure_apply_def call_def get_number_of_params_def def_star_def)

lemma raised_not_ProcedureError: "map_sum id g (raised r) \<noteq> Inl (ProcedureError msg)"
  by (cases r) auto

lemma attr_value_error: "attr_value a = Inl e \<Longrightarrow> e = PyError AttributeError"
  by (cases a) auto

lemma attr_value_not_ProcedureError: "attr_value a \<noteq> Inl (ProcedureError msg)"
  by (cases a) auto

lemma quotient_not_ProcedureError: "builtin_quotient a b \<noteq> Inl (ProcedureError msg)"
  by (auto simp: raised_not_ProcedureError simp del: floordiv.simps
        split: sum.splits dest: attr_value_error)

lemma mod_not_ProcedureError: "builtin_mod fmt a b \<noteq> Inl (ProcedureError msg)"
  by (auto simp: raised_not_ProcedureError simp del: modulus.simps
        split: sum.splits dest: attr_value_error)

lemma comp_loop_not_ProcedureError: "comp_loop f v args \<noteq> Inl (ProcedureError msg)"
proof (induction args arbitrary: v)
  case Nil
  show ?case by simp
next
  case (Cons a args)
  show ?case
    using attr_value_not_ProcedureError [of v msg] attr_value_not_ProcedureError [of a msg] Cons
    by (cases "attr_value v"; cases "attr_value a";
        cases "f (projr (attr_value v)) (projr (attr_value a))") auto
qed

lemma comp_op_not_ProcedureError: "comp_op f args \<noteq> Inl (ProcedureError msg)"
  by (cases args) (simp_all add: comp_loop_not_ProcedureError)

lemma comp_loop_numbers:
  assumes "\<And>a b. f (PyInt a) (PyInt b) = Inr (r a b)"
  shows "comp_loop f (Number (PyInt n)) (map (\<lambda>n. Number (PyInt n)) ns)
           = Inr (Boolean (successively r (n # ns)))"
  by (induction ns arbitrary: n) (simp_all add: assms)

lemma comp_loop_short_circuit:
  assumes "\<And>a b. f (PyInt a) (PyInt b) = Inr (r a b)"
    and "\<not> successively r (n # ns)"
  shows "comp_loop f (Number (PyInt n)) (map (\<lambda>n. Number (PyInt n)) ns @ rest)
           = Inr (Boolean False)"
  using assms(2) by (induction ns arbitrary: n) (auto simp: assms(1))

lemma comparison_relations_ints:
  assumes "(f, r) \<in> set comparison_relations"
  shows "f (PyInt a) (PyInt b) = Inr (r a b)"
  using assms by (auto simp: comparison_relations_def)

subsection \<open>Type checks of the reduction operations\<close>

text \<open>
  Claim C1 says that every reduction builtin (\<^verbatim>\<open>+ - *\<close>, the comparisons,
  \<^verbatim>\<open>quotient\<close> and \<^verbatim>\<open>modulo\<close>) raises \<^verbatim>\<open>ProcedureError\<close> as soon as one argument is
  not a \<^verbatim>\<open>Number\<close>, the one-argument case of \<^verbatim>\<open>+ - *\<close> included. The code computes
  instead: unary minus of \<^verbatim>\<open>Boolean(True)\<close> is \<^verbatim>\<open>Number(-1)\<close>, \<^verbatim>\<open>=\<close> of the lone
  argument \<^verbatim>\<open>Nil\<close> is \<^verbatim>\<open>Boolean(True)\<close>, and the quotient of \<^verbatim>\<open>Boolean(True)\<close> by itself
  is \<^verbatim>\<open>Number(1)\<close>.
\<close>

theorem reduction_without_type_check:
  "arith_op op_sub unary_minus [Boolean True] = Inr (Number (PyInt (- 1)))
   \<and> comp_op op_eq [NilV] = Inr (Boolean True)
   \<and> builtin_quotient (Boolean True) (Boolean True) = Inr (Number (PyInt 1))"
  by simp

text \<open>
  Claim C1, amended: \<^verbatim>\<open>+\<close>, \<^verbatim>\<open>-\<close> and \<^verbatim>\<open>*\<close> called with a number of arguments other
  than one raise \<^verbatim>\<open>ProcedureError("Expected numbers only")\<close> whenever some argument is
  not a \<^verbatim>\<open>Number\<close>; the comparisons, \<^verbatim>\<open>quotient\<close> and \<^verbatim>\<open>modulo\<close> check no type and
  raise \<^verbatim>\<open>ProcedureError\<close> on no input at all.
\<close>

theorem arith_checks_types:
  "(length args \<noteq> 1 \<and> (\<exists>a \<in> set args. \<not> is_Number a) \<longrightarrow>
      arith_op op_func unary_func args = Inl (ProcedureError ''Expected numbers only''))
   \<and> comp_op cmp args \<noteq> Inl (ProcedureError msg)
   \<and> builtin_quotient a b \<noteq> Inl (ProcedureError msg)
   \<and> builtin_mod fmt a b \<noteq> Inl (ProcedureError msg)"
  using comp_op_not_ProcedureError [of cmp args msg]
    quotient_not_ProcedureError [of a b msg] mod_not_ProcedureError [of fmt a b msg]
  by (auto simp: list_ex_iff)

theorem arith_checks_types_witness:
  "length [Number (PyInt 1), Boolean True] \<noteq> 1
   \<and> (\<exists>a \<in> set [Number (PyInt 1), Boolean True]. \<not> is_Number a)
   \<and> arith_op op_add unary_plus [Number (PyInt 1), Boolean True]
       = Inl (ProcedureError ''Expected numbers only'')"
  using arith_checks_types [of "[Number (PyInt 1), Boolean True]" op_add unary_plus]
  by simp

subsection \<open>\<^verbatim>\<open>car\<close> and \<^verbatim>\<open>cdr\<close>\<close>

text \<open>
  Claim C2 says that \<^verbatim>\<open>builtin_car\<close> and \<^verbatim>\<open>builtin_cdr\<close> raise whenever the first
  slot of the pair holds the empty-list marker \<^verbatim>\<open>Nil\<close>, and never return the marker
  read through that slot. The guard of the code is \<^verbatim>\<open>pair.first is None\<close>, and
  \<^verbatim>\<open>Nil()\<close> is not \<^verbatim>\<open>None\<close>: on \<^verbatim>\<open>Pair(Nil(), Number(1))\<close>, \<^verbatim>\<open>car\<close> returns the marker
  and \<^verbatim>\<open>cdr\<close> the second slot.
\<close>

theorem car_cdr_return_empty_list_marker:
  "builtin_car (PairV NilV (Number (PyInt 1))) = Inr NilV
   \<and> builtin_cdr (PairV NilV (Number (PyInt 1))) = Inr (Number (PyInt 1))"
  by simp

text \<open>
  Claim C2, amended: \<^verbatim>\<open>builtin_car\<close> and \<^verbatim>\<open>builtin_cdr\<close> raise \<^verbatim>\<open>ProcedureError\<close> when
  the argument is not a \<^verbatim>\<open>Pair\<close>, and when the first slot of the pair is \<^verbatim>\<open>None\<close>;
  for every other content of the first slot, the empty-list marker included, \<^verbatim>\<open>car\<close>
  returns the first slot and \<^verbatim>\<open>cdr\<close> the second.
\<close>

theorem car_cdr_guard:
  "(\<not> is_Pair p \<longrightarrow>
      builtin_car p = Inl (ProcedureError ''Expected pair or list.'')
      \<and> builtin_cdr p = Inl (ProcedureError ''Expected pair or list.''))
   \<and> builtin_car (PairV PyNone s) = Inl (ProcedureError ''attempted car on empty list'')
   \<and> builtin_cdr (PairV PyNone s) = Inl (ProcedureError ''attempted cdr on empty list'')
   \<and> (f \<noteq> PyNone \<longrightarrow> builtin_car (PairV f s) = Inr f \<and> builtin_cdr (PairV f s) = Inr s)"
  by simp

theorem car_cdr_guard_witness:
  "\<not> is_Pair (Number (PyInt 5)) \<and> NilV \<noteq> PyNone
   \<and> builtin_car (Number (PyInt 5)) = Inl (ProcedureError ''Expected pair or list.'')
   \<and> builtin_cdr (Number (PyInt 5)) = Inl (ProcedureError ''Expected pair or list.'')
   \<and> builtin_car (PairV NilV (String ''x'')) = Inr NilV
   \<and> builtin_cdr (PairV NilV (String ''x'')) = Inr (String ''x'')"
  using car_cdr_guard [of "Number (PyInt 5)" "String ''x''" NilV] by simp

subsection \<open>The arity check of \<^verbatim>\<open>Procedure.apply\<close>\<close>

text \<open>
  Claim C4: for a procedure whose function declares \<open>n\<close> parameters, \<^verbatim>\<open>apply\<close> on an
  argument tuple of another length raises \<^verbatim>\<open>ProcedureError\<close> with the message built
  from the procedure's name, \<open>n\<close> and the number of arguments received; the body is
  not called, so that the result stays the same with any other body \<open>b\<close> in its
  place. On a tuple of length \<open>n\<close> the result is that of the body on these
  arguments.
\<close>

theorem apply_checks_arity:
  assumes "get_number_of_params (builtin_proc p) = Fixed n"
  shows "(length args \<noteq> n \<longrightarrow>
            procedure_apply p args =
              Inl (ProcedureError
                (''Procedure '' @ [CHR 0x22] @ name p @ [CHR 0x22] @ '' expected ''
                   @ str_of_nat n @ '' argument(s). Got '' @ str_of_nat (length args)
                   @ '' instead'')))
         \<and> (length args \<noteq> n \<longrightarrow>
               procedure_apply (p\<lparr>builtin_proc := (builtin_proc p)\<lparr>body := b\<rparr>\<rparr>) args
                 = procedure_apply p args)
         \<and> (length args = n \<longrightarrow> procedure_apply p args = body (builtin_proc p) args)"
  using assms by (auto simp: procedure_apply_def call_def get_number_of_params_def)

theorem apply_checks_arity_witness:
  "get_number_of_params
     (builtin_proc \<lparr>name = ''quotient'', builtin_proc = def2 builtin_quotient\<rparr>) = Fixed 2
   \<and> procedure_apply \<lparr>name = ''quotient'', builtin_proc = def2 builtin_quotient\<rparr>
        [Number (PyInt 7)]
       = Inl (ProcedureError
           (''Procedure '' @ [CHR 0x22] @ ''quotient'' @ [CHR 0x22]
              @ '' expected 2 argument(s). Got 1 instead''))
   \<and> procedure_apply \<lparr>name = ''quotient'', builtin_proc = def2 builtin_quotient\<rparr>
        [Number (PyInt 7), Number (PyInt 2), Number (PyInt 1)]
       = Inl (ProcedureError
           (''Procedure '' @ [CHR 0x22] @ ''quotient'' @ [CHR 0x22]
              @ '' expected 2 argument(s). Got 3 instead''))
   \<and> procedure_apply \<lparr>name = ''quotient'', builtin_proc = def2 builtin_quotient\<rparr>
        [Number (PyInt 7), Number (PyInt 2)]
       = Inr (Number (PyInt 3))"
proof -
  have h: "get_number_of_params
     (builtin_proc \<lparr>name = ''quotient'', builtin_proc = def2 builtin_quotient\<rparr>) = Fixed 2"
    by (simp add: get_number_of_params_def def2_def)
  have "body (def2 builtin_quotient) [Number (PyInt 7), Number (PyInt 2)]
          = Inr (Number (PyInt 3))"
    by (simp add: def2_def)
  then show ?thesis
    using h apply_checks_arity [OF h, of "[Number (PyInt 7)]"]
      apply_checks_arity [OF h, of "[Number (PyInt 7), Number (PyInt 2), Number (PyInt 1)]"]
      apply_checks_arity [OF h, of "[Number (PyInt 7), Number (PyInt 2)]"]
    by (simp del: str_of_nat.simps)
qed

subsection \<open>Comparison chains\<close>

text \<open>
  Claim C6: a comparison builtin applied to one or more integer \<^verbatim>\<open>Number\<close>s returns
  \<^verbatim>\<open>Boolean(True)\<close> exactly when every adjacent pair, left to right, satisfies the
  operator. Once an adjacent pair has failed the result is \<^verbatim>\<open>Boolean(False)\<close> whatever
  follows, even arguments that are no numbers: they are not examined. A single
  argument gives \<^verbatim>\<open>Boolean(True)\<close>.
\<close>

theorem comparison_chain:
  assumes "(f, r) \<in> set comparison_relations" and "ns \<noteq> []"
  shows "comp_op f (map (\<lambda>n. Number (PyInt n)) ns) = Inr (Boolean (successively r ns))
         \<and> (\<not> successively r ns \<longrightarrow>
               comp_op f (map (\<lambda>n. Number (PyInt n)) ns @ rest) = Inr (Boolean False))
         \<and> comp_op f [Number (PyInt n)] = Inr (Boolean True)"
proof (cases ns)
  case Nil
  with assms(2) show ?thesis by simp
next
  case (Cons m ms)
  have ints: "\<And>a b. f (PyInt a) (PyInt b) = Inr (r a b)"
    using assms(1) by (rule comparison_relations_ints)
  show ?thesis
    unfolding Cons
    using comp_loop_numbers [of f r m ms, OF ints]
      comp_loop_short_circuit [of f r m ms rest, OF ints]
    by simp
qed

theorem comparison_chain_witness:
  "(op_lt, (<)) \<in> set comparison_relations \<and> [1, 3, 2] \<noteq> ([] :: int list)
   \<and> comp_op op_lt [Number (PyInt 1), Number (PyInt 2), Number (PyInt 3)] = Inr (Boolean True)
   \<and> comp_op op_lt [Number (PyInt 1), Number (PyInt 3), Number (PyInt 2)] = Inr (Boolean False)
   \<and> comp_op op_lt [Number (PyInt 1), Number (PyInt 3), Number (PyInt 2), NilV]
       = Inr (Boolean False)"
proof -
  have h: "(op_lt, (<)) \<in> set comparison_relations"
    by (simp add: comparison_relations_def)
  show ?thesis
    using h comparison_chain [OF h, of "[1, 2, 3]" "[]" 0]
      comparison_chain [OF h, of "[1, 3, 2]" "[NilV]" 0]
    by simp
qed

subsection \<open>\<^verbatim>\<open>and\<close> and \<^verbatim>\<open>or\<close>\<close>

text \<open>
  Claim C8: \<^verbatim>\<open>and\<close> returns the first argument equal to \<^verbatim>\<open>Boolean(False)\<close> if there is
  one, otherwise the last argument, and \<^verbatim>\<open>Boolean(True)\<close> on no argument; \<^verbatim>\<open>or\<close>
  returns the first argument equal to \<^verbatim>\<open>Boolean(True)\<close> if there is one, otherwise the
  last argument, and \<^verbatim>\<open>Boolean(False)\<close> on no argument. So \<^verbatim>\<open>or(false, false, 3)\<close> is 3.
\<close>

theorem builtin_and_or_result:
  "builtin_and args =
     (case find (\<lambda>el. el = Boolean False) args of
        Some el \<Rightarrow> el
      | None \<Rightarrow> if args = [] then Boolean True else last args)
   \<and> builtin_or args =
     (case find (\<lambda>el. el = Boolean True) args of
        Some el \<Rightarrow> el
      | None \<Rightarrow> if args = [] then Boolean False else last args)
   \<and> builtin_or [Boolean False, Boolean False, Number (PyInt 3)] = Number (PyInt 3)"
  by (simp add: first_equal_find)

subsection \<open>Comparisons on no argument\<close>

text \<open>
  Claim C9: the function of every comparison builtin is variadic, so that \<^verbatim>\<open>apply\<close>
  never raises its arity error and always runs the body; on the empty tuple the
  body raises \<^verbatim>\<open>StopIteration\<close>, one of Python's exceptions and not
  \<^verbatim>\<open>ProcedureError\<close>.
\<close>

theorem comparisons_variadic_stop_iteration:
  assumes "(nm, f) \<in> set comparison_builtins"
  shows "get_number_of_params f = Positional
         \<and> (\<forall>args. procedure_apply \<lparr>name = nm, builtin_proc = f\<rparr> args = body f args)
         \<and> procedure_apply \<lparr>name = nm, builtin_proc = f\<rparr> [] = Inl (PyError StopIteration)"
  using assms
  by (auto simp: comparison_builtins_def def_star_positional apply_def_star)
     (simp_all add: def_star_def)

theorem comparisons_variadic_stop_iteration_witness:
  "(''<'', def_star (comp_op op_lt)) \<in> set comparison_builtins
   \<and> get_number_of_params (def_star (comp_op op_lt)) = Positional
   \<and> procedure_apply \<lparr>name = ''<'', builtin_proc = def_star (comp_op op_lt)\<rparr> []
       = Inl (PyError StopIteration)"
proof -
  have h: "(''<'', def_star (comp_op op_lt)) \<in> set comparison_builtins"
    by (simp add: comparison_builtins_def)
  show ?thesis
    using h comparisons_variadic_stop_iteration [OF h] by (simp add: def_star_def)
qed

subsection \<open>Division by zero\<close>

text \<open>
  Claim C10: \<^verbatim>\<open>builtin_quotient\<close> and \<^verbatim>\<open>builtin_mod\<close> applied to two integer
  \<^verbatim>\<open>Number\<close>s, the second being 0, raise Python's \<^verbatim>\<open>ZeroDivisionError\<close>, also when
  called through \<^verbatim>\<open>apply\<close>; and on no arguments whatever do they raise
  \<^verbatim>\<open>ProcedureError\<close>.
\<close>

theorem quotient_modulo_zero_divisor:
  "builtin_quotient (Number (PyInt a)) (Number (PyInt 0)) = Inl (PyError ZeroDivisionError)
   \<and> builtin_mod fmt (Number (PyInt a)) (Number (PyInt 0)) = Inl (PyError ZeroDivisionError)
   \<and> procedure_apply \<lparr>name = ''quotient'', builtin_proc = def2 builtin_quotient\<rparr>
        [Number (PyInt a), Number (PyInt 0)] = Inl (PyError ZeroDivisionError)
   \<and> procedure_apply \<lparr>name = ''modulo'', builtin_proc = def2 (builtin_mod fmt)\<rparr>
        [Number (PyInt a), Number (PyInt 0)] = Inl (PyError ZeroDivisionError)
   \<and> builtin_quotient x y \<noteq> Inl (ProcedureError msg)
   \<and> builtin_mod fmt x y \<noteq> Inl (ProcedureError msg)"
  using quotient_not_ProcedureError [of x y msg] mod_not_ProcedureError [of fmt x y msg]
  by (simp add: procedure_apply_def call_def get_number_of_params_def def2_def)

section \<open>Properties of the lexer\<close>

subsection \<open>Helper facts\<close>

lemma skip_garbage_stops: "\<not> skippable (get_char L None) \<Longrightarrow> skip_garbage L = L"
  using skip_garbage.simps [of L] by simp

lemma skip_garbage_moves:
  "buffer (skip_garbage L) = buffer L \<and> pos L \<le> pos (skip_garbage L)
   \<and> \<not> skippable (get_char (skip_garbage L) None)"
proof (induction L rule: skip_garbage.induct)
  case (1 L)
  show ?case
  proof (cases "skippable (get_char L None)")
    case True
    have "buffer (skip_whitespace (skip_comments L)) = buffer L"
      and "pos L \<le> pos (skip_whitespace (skip_comments L))"
      using skip_whitespace_moves [of "skip_comments L"] skip_comments_moves [of L]
      by auto
    with "1.IH" [OF True] True show ?thesis
      using skip_garbage.simps [of L] by auto
  next
    case False
    then show ?thesis by (simp add: skip_garbage_stops)
  qed
qed

lemma scan_while_eq:
  "0 < e \<Longrightarrow> scan_while P L e = e + length (takeWhile P (drop e (buffer L)))"
proof (induction P L e rule: scan_while.induct)
  case (1 accept self endpos)
  show ?case
  proof (cases "endpos < length (buffer self)")
    case False
    then show ?thesis
      using "1.prems" scan_while.simps [of accept self endpos] by (simp add: get_char_at)
  next
    case True
    then have d: "drop endpos (buffer self) = buffer self ! endpos # drop (Suc endpos) (buffer self)"
      by (simp add: Cons_nth_drop_Suc)
    have g: "get_char self (Some endpos) = Some (buffer self ! endpos)"
      using True "1.prems" by (simp add: get_char_at)
    show ?thesis
    proof (cases "accept (buffer self ! endpos)")
      case False
      then show ?thesis
        using g d scan_while.simps [of accept self endpos] by simp
    next
      case acc: True
      from "1.IH" [OF g acc] have "scan_while accept self (endpos + 1)
          = endpos + 1 + length (takeWhile accept (drop (endpos + 1) (buffer self)))"
        by simp
      then show ?thesis
        using g d acc scan_while.simps [of accept self endpos] by simp
    qed
  qed
qed

lemma string_end_eq:
  "0 < e \<Longrightarrow> string_end L e =
     (case dropWhile inside_string (drop e (buffer L)) of
        [] \<Rightarrow> None
      | c # _ \<Rightarrow> if c = CHR 0x22
                 then Some (e + length (takeWhile inside_string (drop e (buffer L))))
                 else None)"
proof (induction L e rule: string_end.induct)
  case (1 self endpos)
  show ?case
  proof (cases "endpos < length (buffer self)")
    case False
    then show ?thesis
      using "1.prems" string_end.simps [of self endpos] by (simp add: get_char_at)
  next
    case True
    then have d: "drop endpos (buffer self) = buffer self ! endpos # drop (Suc endpos) (buffer self)"
      by (simp add: Cons_nth_drop_Suc)
    have g: "get_char self (Some endpos) = Some (buffer self ! endpos)"
      using True "1.prems" by (simp add: get_char_at)
    show ?thesis
    proof (cases "inside_string (buffer self ! endpos)")
      case False
      then show ?thesis
        using g d string_end.simps [of self endpos] by (auto simp: inside_string_def)
    next
      case ins: True
      then have a: "get_char self (Some endpos) \<noteq> Some (CHR 0x22)"
        and b: "\<not> (get_char self (Some endpos) = None \<or> get_char self (Some endpos) = Some (CHR 0x0A))"
        using g by (auto simp: inside_string_def)
      have step: "string_end self endpos = string_end self (endpos + 1)"
        using g ins string_end.simps [of self endpos] by (simp add: inside_string_def)
      define D where "D = dropWhile inside_string (drop (endpos + 1) (buffer self))"
      define T where "T = length (takeWhile inside_string (drop (endpos + 1) (buffer self)))"
      have dw: "dropWhile inside_string (drop endpos (buffer self)) = D"
        using d ins by (simp add: D_def)
      have tw: "length (takeWhile inside_string (drop endpos (buffer self))) = Suc T"
        using d ins by (simp add: T_def)
      have ih: "string_end self (endpos + 1) =
          (case D of [] \<Rightarrow> None
           | c # _ \<Rightarrow> if c = CHR 0x22 then Some (endpos + 1 + T) else None)"
        unfolding D_def T_def by (rule "1.IH" [OF a b]) simp
      show ?thesis
        unfolding step dw tw ih by (cases D) simp_all
    qed
  qed
qed

lemma get_char_Some_lt: "get_char L None = Some c \<Longrightarrow> pos L < length (buffer L) \<and> buffer L ! pos L = c"
  by (auto simp: get_char_cursor split: if_splits)

lemma scan_while_span:
  assumes "pos L < length (buffer L)"
  shows "pos L < scan_while P L (pos L + 1)
         \<and> scan_while P L (pos L + 1) \<le> length (buffer L)
         \<and> slice (buffer L) (pos L) (scan_while P L (pos L + 1))
             = buffer L ! pos L # takeWhile P (drop (pos L + 1) (buffer L))"
proof -
  define k where "k = length (takeWhile P (drop (pos L + 1) (buffer L)))"
  have e: "scan_while P L (pos L + 1) = pos L + 1 + k"
    by (simp add: scan_while_eq k_def)
  have "k \<le> length (drop (pos L + 1) (buffer L))"
    unfolding k_def by (rule length_takeWhile_le)
  then have le: "pos L + 1 + k \<le> length (buffer L)"
    using assms by simp
  have d: "drop (pos L) (buffer L) = buffer L ! pos L # drop (pos L + 1) (buffer L)"
    using assms by (simp add: Cons_nth_drop_Suc)
  have "take (Suc k) (drop (pos L) (buffer L))
          = buffer L ! pos L # take k (drop (pos L + 1) (buffer L))"
    by (subst d) simp
  also have "take k (drop (pos L + 1) (buffer L)) = takeWhile P (drop (pos L + 1) (buffer L))"
    unfolding k_def by (rule takeWhile_eq_take [symmetric])
  finally show ?thesis
    using e le by (simp add: slice_def)
qed

lemma string_end_span:
  assumes "string_end L (pos L + 1) = Some e"
  shows "pos L < e \<and> e < length (buffer L) \<and> buffer L ! e = CHR 0x22
         \<and> slice (buffer L) (pos L + 1) e = takeWhile inside_string (drop (pos L + 1) (buffer L))
         \<and> e = pos L + 1 + length (takeWhile inside_string (drop (pos L + 1) (buffer L)))"
proof -
  define xs where "xs = drop (pos L + 1) (buffer L)"
  define k where "k = length (takeWhile inside_string xs)"
  from assms obtain tl where dw: "dropWhile inside_string xs = CHR 0x22 # tl" and e: "e = pos L + 1 + k"
    by (auto simp: string_end_eq xs_def k_def split: list.splits if_splits)
  have "takeWhile inside_string xs @ dropWhile inside_string xs = xs" by simp
  then have len: "length xs = k + Suc (length tl)"
    unfolding dw k_def by (metis length_append length_Cons)
  then have klt: "k < length xs" by simp
  have "dropWhile inside_string xs ! 0 = xs ! (0 + length (takeWhile inside_string xs))"
    by (rule dropWhile_nth) (simp add: dw)
  then have xk: "xs ! k = CHR 0x22" by (simp add: dw k_def)
  have lt: "e < length (buffer L)"
    using klt e by (simp add: xs_def)
  have at: "buffer L ! e = CHR 0x22"
    using xk lt e by (simp add: xs_def add.commute)
  have "take k xs = takeWhile inside_string xs"
    unfolding k_def by (rule takeWhile_eq_take [symmetric])
  then show ?thesis
    using e lt at by (simp add: slice_def xs_def k_def)
qed

text \<open>The cursor after each branch of \<^verbatim>\<open>next_token\<close>.\<close>

lemma slice_length: "j \<le> length s \<Longrightarrow> length (slice s i j) = j - i"
  by (simp add: slice_def)

lemma slice_single: "i < length s \<Longrightarrow> slice s i (i + 1) = [s ! i]"
  by (simp add: slice_def take_Suc_conv_app_nth Cons_nth_drop_Suc [symmetric])

lemma process_boolean_cursor:
  assumes "get_char L (Some (pos L + 1)) = Some c"
  shows "cursor_after L (process_boolean L)"
proof -
  have "pos L + 1 < length (buffer L)"
    using assms by (auto simp: get_char_at split: if_splits)
  then show ?thesis
    by (simp add: cursor_after_def process_boolean_def slice_length)
qed

lemma process_scan_cursor:
  assumes "pos L < length (buffer L)" and "ty \<noteq> STRING"
  shows "cursor_after L
           (let endpos = scan_while P L (pos L + 1);
                retval = Token ty (slice (buffer L) (pos L) endpos) (pos L)
            in (Tok retval, L\<lparr>pos := endpos\<rparr>))"
proof -
  define e where "e = scan_while P L (pos L + 1)"
  have "pos L < e" "e \<le> length (buffer L)"
    using scan_while_span [OF assms(1), of P] by (simp_all add: e_def)
  then have "cursor_after L
           (Tok (Token ty (slice (buffer L) (pos L) e) (pos L)), L\<lparr>pos := e\<rparr>)"
    using assms(2) by (simp add: cursor_after_def slice_length)
  then show ?thesis
    by (simp add: Let_def e_def)
qed

lemma process_string_cursor:
  assumes "pos L < length (buffer L)"
  shows "cursor_after L (process_string L)"
proof (cases "string_end L (pos L + 1)")
  case None
  then show ?thesis
    using assms unfolding process_string_def by (simp add: cursor_after_def)
next
  case (Some e)
  from string_end_span [OF Some] show ?thesis
    unfolding process_string_def Some
    by (simp add: cursor_after_def slice_length)
qed

lemma process_single_cursor:
  assumes "pos L < length (buffer L)" and "ty \<noteq> STRING"
  shows "cursor_after L
           (let retval = Token ty [buffer L ! pos L] (pos L)
            in (Tok retval, L\<lparr>pos := pos L + 1\<rparr>))"
  using assms slice_single [of "pos L" "buffer L"]
  by (simp add: cursor_after_def)

lemma next_token_at_cursor:
  assumes "\<not> skippable (get_char L None)"
  shows "cursor_after L (next_token L)"
proof -
  have sg: "skip_garbage L = L"
    using assms by (rule skip_garbage_stops)
  show ?thesis
  proof (cases "get_char L None")
    case None
    then show ?thesis by (simp add: next_token_def sg cursor_after_def)
  next
    case (Some char)
    then have lt: "pos L < length (buffer L)"
      by (simp add: get_char_Some_lt)
    have err: "cursor_after L (Error (pos L), L)"
      using lt by (simp add: cursor_after_def)
    have str: "cursor_after L (process_string L)"
      using lt by (rule process_string_cursor)
    have num: "cursor_after L (process_number L)"
      unfolding process_number_def by (rule process_scan_cursor [OF lt]) simp
    have ide: "cursor_after L (process_identifier L)"
      unfolding process_identifier_def by (rule process_scan_cursor [OF lt]) simp
    have lp: "cursor_after L (process_lparen L)"
      unfolding process_lparen_def by (rule process_single_cursor [OF lt]) simp
    have rp: "cursor_after L (process_rparen L)"
      unfolding process_rparen_def by (rule process_single_cursor [OF lt]) simp
    have qu: "cursor_after L (process_quote L)"
      unfolding process_quote_def by (rule process_single_cursor [OF lt]) simp
    define is_bool where "is_bool =
      (char = CHR ''#''
       \<and> (case get_char L (Some (pos L + 1)) of
              None \<Rightarrow> False | Some c \<Rightarrow> c \<in> TRUE_OR_FALSE_CHARS))"
    have bo: "cursor_after L (process_boolean L)" if is_bool
    proof -
      from that obtain c where "get_char L (Some (pos L + 1)) = Some c"
        by (auto simp: is_bool_def split: option.splits)
      then show ?thesis by (rule process_boolean_cursor)
    qed
    have "next_token L =
        (if is_bool then process_boolean L
         else if isdigit char then process_number L
         else if char = CHR 0x22 then process_string L
         else if is_identifier char then process_identifier L
         else if char = CHR ''('' then process_lparen L
         else if char = CHR '')'' then process_rparen L
         else if char = CHR 0x27 then process_quote L
         else (Error (pos L), L))"
      unfolding next_token_def sg Let_def Some is_bool_def by simp
    then show ?thesis
      using err str num ide lp rp qu bo by simp
  qed
qed

lemma next_token_skip_garbage: "next_token (skip_garbage L) = next_token L"
  using skip_garbage_moves [of L] by (simp add: next_token_def skip_garbage_stops)

subsection \<open>The cursor after a call\<close>

text \<open>
  Claim C3 says that a call which returns an error leaves the cursor just after the
  offending character, so that the next call makes progress. Neither error path moves
  the cursor: on the buffer \<open>@\<close> the call returns \<^verbatim>\<open>Error(0)\<close> with the cursor still
  at 0, the next call returns the same, and an unterminated string does likewise.
\<close>

theorem error_leaves_cursor:
  "next_token \<lparr>buffer = ''@'', pos = 0\<rparr> = (Error 0, \<lparr>buffer = ''@'', pos = 0\<rparr>)
   \<and> next_token (snd (next_token \<lparr>buffer = ''@'', pos = 0\<rparr>))
       = (Error 0, \<lparr>buffer = ''@'', pos = 0\<rparr>)
   \<and> next_token \<lparr>buffer = [CHR 0x22, CHR ''a'', CHR ''b''], pos = 0\<rparr>
       = (Error 0, \<lparr>buffer = [CHR 0x22, CHR ''a'', CHR ''b''], pos = 0\<rparr>)"
  by code_simp

text \<open>
  Claim C3, amended: for every buffer and every cursor position, a call of
  \<^verbatim>\<open>next_token\<close> keeps the buffer. When it returns a token, the cursor is strictly
  past where it started and just after the token: at the token's position plus the
  length of its text (plus 2, for the quotes, when it is a string), the text being
  the slice of the buffer between the two. When it returns an error, the cursor is
  left on the error position, the offending character or the opening quote, and the
  next call returns the same error with the same cursor.
\<close>

theorem next_token_cursor:
  assumes "next_token self = (r, self')"
  shows "buffer self' = buffer self
    \<and> (\<forall>t. r = Tok t \<longrightarrow>
          pos self < pos self' \<and> pos self \<le> token_pos t \<and> pos self' \<le> length (buffer self)
          \<and> (if token_type t = STRING
              then pos self' = token_pos t + length (val t) + 2
                   \<and> slice (buffer self) (token_pos t + 1) (pos self' - 1) = val t
              else pos self' = token_pos t + length (val t)
                   \<and> slice (buffer self) (token_pos t) (pos self') = val t))
    \<and> (\<forall>p. r = Error p \<longrightarrow>
          pos self' = p \<and> pos self \<le> p \<and> p < length (buffer self)
          \<and> next_token self' = (Error p, self'))"
proof -
  define L where "L = skip_garbage self"
  have L: "buffer L = buffer self" "pos self \<le> pos L" "\<not> skippable (get_char L None)"
    using skip_garbage_moves [of self] by (simp_all add: L_def)
  have nt: "next_token L = (r, self')"
    using assms by (simp add: L_def next_token_skip_garbage)
  from next_token_at_cursor [OF L(3)] have ca: "cursor_after L (r, self')"
    by (simp add: nt)
  show ?thesis
  proof (cases r)
    case NoToken
    then show ?thesis using ca L by (simp add: cursor_after_def)
  next
    case (Tok t)
    then show ?thesis using ca L by (auto simp: cursor_after_def split: if_splits)
  next
    case (Error p)
    then have "self' = L" using ca by (simp add: cursor_after_def)
    then show ?thesis using ca L nt Error by (simp add: cursor_after_def)
  qed
qed

theorem next_token_cursor_witness:
  "next_token (Lexer '' (+ 12 x)'') = (Tok (Token LPAREN ''('' 1), \<lparr>buffer = '' (+ 12 x)'', pos = 2\<rparr>)
   \<and> pos (Lexer '' (+ 12 x)'') < pos \<lparr>buffer = '' (+ 12 x)'', pos = 2\<rparr>
   \<and> next_token (Lexer '' @'') = (Error 1, \<lparr>buffer = '' @'', pos = 1\<rparr>)
   \<and> next_token \<lparr>buffer = '' @'', pos = 1\<rparr> = (Error 1, \<lparr>buffer = '' @'', pos = 1\<rparr>)"
proof -
  have h1: "next_token (Lexer '' (+ 12 x)'')
              = (Tok (Token LPAREN ''('' 1), \<lparr>buffer = '' (+ 12 x)'', pos = 2\<rparr>)"
    by code_simp
  have h2: "next_token (Lexer '' @'') = (Error 1, \<lparr>buffer = '' @'', pos = 1\<rparr>)"
    by code_simp
  show ?thesis
    using h1 h2 next_token_cursor [OF h1] next_token_cursor [OF h2]
    by simp
qed

subsection \<open>The identifiers \<^verbatim>\<open>>=\<close> and \<^verbatim>\<open><=\<close>\<close>

text \<open>
  Claim C5 says that an input beginning with \<^verbatim>\<open>>=\<close> or \<^verbatim>\<open><=\<close> yields a
  two-character identifier. The identifier is the maximal run: on \<^verbatim>\<open>>=1\<close> it is
  the three characters \<^verbatim>\<open>>=1\<close>.
\<close>

theorem greater_equal_digit_one_token:
  "next_token (Lexer ''>=1'')
     = (Tok (Token IDENTIFIER ''>=1'' 0), \<lparr>buffer = ''>=1'', pos = 3\<rparr>)"
  by code_simp

text \<open>
  Claim C5, amended: an input beginning with \<^verbatim>\<open>>=\<close> or \<^verbatim>\<open><=\<close> yields one
  \<^verbatim>\<open>IDENTIFIER\<close> token at position 0 whose text is these two characters followed by
  the maximal run of identifier characters after them, never the one-character
  token; it is exactly the two characters when the input ends after them or goes on
  with a character that is not an identifier character.
\<close>

theorem comparison_identifier_token:
  assumes "opr = ''>='' \<or> opr = ''<=''"
  shows "next_token (Lexer (opr @ rest))
           = (Tok (Token IDENTIFIER (opr @ takeWhile is_identifier rest) 0),
              \<lparr>buffer = opr @ rest, pos = 2 + length (takeWhile is_identifier rest)\<rparr>)
         \<and> (rest = [] \<or> \<not> is_identifier (hd rest) \<longrightarrow>
               next_token (Lexer (opr @ rest))
                 = (Tok (Token IDENTIFIER opr 0), \<lparr>buffer = opr @ rest, pos = 2\<rparr>))"
proof -
  define L where "L = Lexer (opr @ rest)"
  obtain c where opr: "opr = [c, CHR ''='']" and c: "c = CHR ''>'' \<or> c = CHR ''<''"
    using assms by auto
  have g: "get_char L None = Some c"
    by (simp add: L_def Lexer_def get_char_def opr)
  have lt: "pos L < length (buffer L)"
    using g by (simp add: get_char_Some_lt)
  have sg: "skip_garbage L = L"
    by (rule skip_garbage_stops)
       (use c in \<open>auto simp: g skippable_def GARBAGE_CHARS_def COMMENT_CHAR_def\<close>)
  have idc: "is_identifier c" "\<not> isdigit c" "c \<noteq> CHR ''#''" "c \<noteq> CHR 0x22"
    using c by (auto simp: is_identifier_def builtin_map_keys_def isdigit_def)
  have ideq: "is_identifier (CHR ''='')"
    by (simp add: is_identifier_def builtin_map_keys_def)
  have nt: "next_token L = process_identifier L"
    using idc by (simp add: next_token_def sg g)
  have buf: "buffer L = c # CHR ''='' # rest" and p0: "pos L = 0"
    by (simp_all add: L_def Lexer_def opr)
  define E where "E = scan_while is_identifier L (pos L + 1)"
  have e: "E = 2 + length (takeWhile is_identifier rest)"
    by (simp add: E_def scan_while_eq buf p0 ideq)
  have sl: "slice (buffer L) (pos L) E = opr @ takeWhile is_identifier rest"
    using scan_while_span [OF lt, of is_identifier]
    by (simp add: E_def buf p0 ideq opr)
  have main: "next_token L
           = (Tok (Token IDENTIFIER (opr @ takeWhile is_identifier rest) 0),
              \<lparr>buffer = opr @ rest, pos = 2 + length (takeWhile is_identifier rest)\<rparr>)"
    unfolding nt process_identifier_def Let_def E_def [symmetric] sl
    by (simp add: e L_def Lexer_def)
  have "rest = [] \<or> \<not> is_identifier (hd rest) \<Longrightarrow> takeWhile is_identifier rest = []"
    by (cases rest) auto
  then show ?thesis
    using main unfolding L_def by auto
qed


theorem comparison_identifier_token_witness:
  "next_token (Lexer ''>= 1 2'') = (Tok (Token IDENTIFIER ''>='' 0), \<lparr>buffer = ''>= 1 2'', pos = 2\<rparr>)
   \<and> next_token (Lexer ''<='') = (Tok (Token IDENTIFIER ''<='' 0), \<lparr>buffer = ''<='', pos = 2\<rparr>)"
proof -
  have a: "''>='' = ''>='' \<or> ''>='' = ''<=''" by simp
  have b: "''<='' = ''>='' \<or> ''<='' = ''<=''" by simp
  have c: "\<not> is_identifier (hd '' 1 2'')"
    by (simp add: is_identifier_def builtin_map_keys_def isalnum_def ADDITIONAL_BUILTIN_CHARS_def)
  show ?thesis
    using comparison_identifier_token [OF a, of "'' 1 2''"]
      comparison_identifier_token [OF b, of "[]"] c
    by simp
qed

subsection \<open>String tokens\<close>

text \<open>
  Claim C7 says that an escaped quote inside a string does not end it. The lexer has
  no escape processing: in the buffer of the six characters double quote, \<open>a\<close>,
  backslash, double quote, \<open>b\<close>, double quote, the quote after the backslash closes
  the token, whose text is \<open>a\<close> and the backslash, and the cursor stops at 4.
\<close>

theorem escaped_quote_ends_string:
  "next_token (Lexer [CHR 0x22, CHR ''a'', CHR 0x5C, CHR 0x22, CHR ''b'', CHR 0x22])
     = (Tok (Token STRING [CHR ''a'', CHR 0x5C] 0),
        \<lparr>buffer = [CHR 0x22, CHR ''a'', CHR 0x5C, CHR 0x22, CHR ''b'', CHR 0x22], pos = 4\<rparr>)"
  by code_simp


text \<open>
  Claim C7, amended: when the character under the cursor is a double quote, the lexer
  steps over every character that is neither a double quote nor a newline. If the
  character it stops at is a double quote, preceded by a backslash or not, the result
  is a \<^verbatim>\<open>STRING\<close> token at the opening quote whose text is the characters stepped
  over, without the two quotes, and the cursor is left after the closing quote. If it
  stops at a newline or at the end of the buffer, the result is \<^verbatim>\<open>Error\<close> with the
  position of the opening quote, and the cursor stays there.
\<close>

theorem string_token:
  assumes "get_char self None = Some (CHR 0x22)"
  shows "next_token self =
     (case dropWhile inside_string (drop (pos self + 1) (buffer self)) of
        [] \<Rightarrow> (Error (pos self), self)
      | c # _ \<Rightarrow>
          if c = CHR 0x22
          then (Tok (Token STRING (takeWhile inside_string (drop (pos self + 1) (buffer self)))
                      (pos self)),
                self\<lparr>pos := pos self + length (takeWhile inside_string
                                (drop (pos self + 1) (buffer self))) + 2\<rparr>)
          else (Error (pos self), self))"
proof -
  have sg: "skip_garbage self = self"
    by (rule skip_garbage_stops)
       (simp add: assms skippable_def GARBAGE_CHARS_def COMMENT_CHAR_def)
  have nt: "next_token self = process_string self"
    using assms by (simp add: next_token_def sg isdigit_def)
  define D where "D = dropWhile inside_string (drop (pos self + 1) (buffer self))"
  define T where "T = takeWhile inside_string (drop (pos self + 1) (buffer self))"
  have se: "string_end self (pos self + 1) =
      (case D of [] \<Rightarrow> None
       | c # _ \<Rightarrow> if c = CHR 0x22 then Some (pos self + 1 + length T) else None)"
    unfolding D_def T_def by (rule string_end_eq) simp
  have goal: "process_string self =
     (case D of
        [] \<Rightarrow> (Error (pos self), self)
      | c # _ \<Rightarrow>
          if c = CHR 0x22
          then (Tok (Token STRING T (pos self)), self\<lparr>pos := pos self + length T + 2\<rparr>)
          else (Error (pos self), self))"
  proof (cases D)
    case Nil
    then show ?thesis unfolding process_string_def se by simp
  next
    case (Cons c tl)
    show ?thesis
    proof (cases "c = CHR 0x22")
      case False
      then show ?thesis using Cons unfolding process_string_def se by simp
    next
      case True
      then have e: "string_end self (pos self + 1) = Some (pos self + 1 + length T)"
        using Cons unfolding se by simp
      from string_end_span [OF e] have "slice (buffer self) (pos self + 1) (pos self + 1 + length T) = T"
        by (simp add: T_def)
      then show ?thesis using Cons True unfolding process_string_def e by simp
    qed
  qed
  show ?thesis
    unfolding nt goal D_def T_def ..
qed

theorem string_token_witness:
  "get_char (Lexer ([CHR 0x22] @ ''hi'' @ [CHR 0x22] @ '' x'')) None = Some (CHR 0x22)
   \<and> next_token (Lexer ([CHR 0x22] @ ''hi'' @ [CHR 0x22] @ '' x''))
       = (Tok (Token STRING ''hi'' 0),
          \<lparr>buffer = [CHR 0x22] @ ''hi'' @ [CHR 0x22] @ '' x'', pos = 4\<rparr>)
   \<and> get_char (Lexer ([CHR 0x22] @ ''abc'' @ [CHR 0x0A])) None = Some (CHR 0x22)
   \<and> next_token (Lexer ([CHR 0x22] @ ''abc'' @ [CHR 0x0A]))
       = (Error 0, Lexer ([CHR 0x22] @ ''abc'' @ [CHR 0x0A]))
   \<and> next_token (Lexer ([CHR 0x22] @ ''abc'')) = (Error 0, Lexer ([CHR 0x22] @ ''abc''))"
proof -
  have h1: "get_char (Lexer ([CHR 0x22] @ ''hi'' @ [CHR 0x22] @ '' x'')) None = Some (CHR 0x22)"
    by (simp add: get_char_def Lexer_def)
  have h2: "get_char (Lexer ([CHR 0x22] @ ''abc'' @ [CHR 0x0A])) None = Some (CHR 0x22)"
    by (simp add: get_char_def Lexer_def)
  have h3: "get_char (Lexer ([CHR 0x22] @ ''abc'')) None = Some (CHR 0x22)"
    by (simp add: get_char_def Lexer_def)
  show ?thesis
    using h1 h2 string_token [OF h1] string_token [OF h2] string_token [OF h3]
    by (simp add: Lexer_def inside_string_def)
qed


end
